theory Spec2Isabelle
  imports Complex_Main
begin

section \<open>Text primitives of the Python runtime\<close>

text \<open>
  A Python \<open>str\<close> is modelled as a HOL \<open>string\<close>, one \<open>char\<close> per code point, so the
  model covers text whose code points are below 256. Floats are modelled by exact
  rationals (plus the three special values): the rounding of binary64 is not part of
  the model. File sizes are far below \<open>2 ^ 53\<close> bytes, where the division by
  \<open>1024 ** 2\<close> and the comparisons of the source are exact.
\<close>

datatype exn =
    FileNotFoundError
  | IndexError
  | ValueError
  | OverflowError
  | ZeroDivisionError
  | KeyError
  | CalledProcessError int
  | RuntimeError int

datatype pyfloat = Fin rat | PosInf | NegInf | NaN

text \<open>\<open>str.isspace\<close> on code points below 256.\<close>

definition is_space :: "char \<Rightarrow> bool" where
  "is_space c =
     (let n = (of_char c :: nat)
      in (9 \<le> n \<and> n \<le> 13) \<or> (28 \<le> n \<and> n \<le> 32) \<or> n = 133 \<or> n = 160)"

definition is_digit :: "char \<Rightarrow> bool" where
  "is_digit c = (let n = (of_char c :: nat) in 48 \<le> n \<and> n \<le> 57)"

definition digit_val :: "char \<Rightarrow> nat" where
  "digit_val c = of_char c - 48"

text \<open>\<open>str.lower\<close> on code points below 256.\<close>

definition lower_char :: "char \<Rightarrow> char" where
  "lower_char c =
     (let n = (of_char c :: nat)
      in if (65 \<le> n \<and> n \<le> 90) \<or> (192 \<le> n \<and> n \<le> 222 \<and> n \<noteq> 215) then char_of (n + 32)
         else c)"

definition lower :: "string \<Rightarrow> string" where
  "lower s = map lower_char s"

text \<open>\<open>str.strip()\<close>\<close>

definition strip :: "string \<Rightarrow> string" where
  "strip s = rev (dropWhile is_space (rev (dropWhile is_space s)))"

fun startswith :: "string \<Rightarrow> string \<Rightarrow> bool" where
  "startswith s [] = True"
| "startswith [] (p # ps) = False"
| "startswith (c # cs) (p # ps) = (c = p \<and> startswith cs ps)"

definition endswith :: "string \<Rightarrow> string \<Rightarrow> bool" where
  "endswith s p = startswith (rev s) (rev p)"

text \<open>\<open>sub in s\<close>\<close>

fun contains :: "string \<Rightarrow> string \<Rightarrow> bool" where
  "contains sub [] = (sub = [])"
| "contains sub (c # cs) = (startswith (c # cs) sub \<or> contains sub cs)"

text \<open>
  \<open>re.split(r'[:.]', s)\<close> and \<open>s.split(',')\<close>: cut at every character of the class.
  The result always has at least one piece.
\<close>

fun split_chars :: "(char \<Rightarrow> bool) \<Rightarrow> string \<Rightarrow> string list" where
  "split_chars P [] = [[]]"
| "split_chars P (c # cs) =
     (if P c then [] # split_chars P cs
      else (case split_chars P cs of
              [] \<Rightarrow> [[c]]
            | p # ps \<Rightarrow> (c # p) # ps))"

text \<open>
  \<open>s.split(sep)\<close> for a separator of one or more characters: the occurrences are taken
  from the left and do not overlap. The separator is \<open>a # sep'\<close>.
\<close>

function split_str :: "char \<Rightarrow> string \<Rightarrow> string \<Rightarrow> string list" where
  "split_str a sep' [] = [[]]"
| "split_str a sep' (c # cs) =
     (if c = a \<and> startswith cs sep' then [] # split_str a sep' (drop (length sep') cs)
      else (case split_str a sep' cs of
              [] \<Rightarrow> [[c]]
            | p # ps \<Rightarrow> (c # p) # ps))"
  by pat_completeness auto
termination
  by (relation "measure (\<lambda>(a, sep', s). length s)") auto

text \<open>\<open>s.split()\<close>: the maximal runs of non-whitespace.\<close>

fun split_ws :: "string \<Rightarrow> string list" where
  "split_ws [] = []"
| "split_ws (c # cs) =
     (if is_space c then split_ws cs
      else (case cs of
              [] \<Rightarrow> [[c]]
            | d # ds \<Rightarrow>
                if is_space d then [c] # split_ws cs
                else (case split_ws cs of
                        [] \<Rightarrow> [[c]]
                      | w # ws \<Rightarrow> (c # w) # ws)))"

text \<open>\<open>xs[i]\<close> for \<open>i \<ge> 0\<close>, with the \<open>IndexError\<close> of the source.\<close>

definition index :: "'a list \<Rightarrow> nat \<Rightarrow> exn + 'a" where
  "index xs i = (if i < length xs then Inr (xs ! i) else Inl IndexError)"

subsection \<open>\<open>int()\<close> and \<open>float()\<close> on text\<close>

text \<open>
  A run of decimal digits in which single underscores may separate digits; \<open>acc\<close> is the
  value of the digits read so far.
\<close>

fun digits_us :: "nat \<Rightarrow> string \<Rightarrow> nat option" where
  "digits_us acc [] = Some acc"
| "digits_us acc [c] = (if is_digit c then Some (acc * 10 + digit_val c) else None)"
| "digits_us acc (c # d # ds) =
     (if is_digit c then digits_us (acc * 10 + digit_val c) (d # ds)
      else if c = CHR ''_'' \<and> is_digit d then digits_us (acc * 10 + digit_val d) ds
      else None)"

definition decimal :: "string \<Rightarrow> nat option" where
  "decimal s = (case s of [] \<Rightarrow> None | c # cs \<Rightarrow> if is_digit c then digits_us 0 s else None)"

definition signed :: "string \<Rightarrow> bool \<times> string" where
  "signed s =
     (case s of
        [] \<Rightarrow> (False, [])
      | c # cs \<Rightarrow>
          if c = CHR ''-'' then (True, cs)
          else if c = CHR ''+'' then (False, cs)
          else (False, s))"

text \<open>
  The white space that \<open>int\<close> and \<open>float\<close> accept around a number: unlike \<open>str.strip\<close>
  they do not accept the four separator characters 28 to 31.
\<close>

definition is_number_space :: "char \<Rightarrow> bool" where
  "is_number_space c =
     (let n = (of_char c :: nat) in (9 \<le> n \<and> n \<le> 13) \<or> n = 32 \<or> n = 133 \<or> n = 160)"

definition strip_number :: "string \<Rightarrow> string" where
  "strip_number s = rev (dropWhile is_number_space (rev (dropWhile is_number_space s)))"

text \<open>
  \<open>int(s)\<close> in base 10; \<open>None\<close> is the \<open>ValueError\<close>. (The interpreter's configurable limit
  on the number of digits is not modelled.)
\<close>

definition py_int :: "string \<Rightarrow> int option" where
  "py_int s =
     (let (neg, body) = signed (strip_number s)
      in case decimal body of
           None \<Rightarrow> None
         | Some n \<Rightarrow> Some (if neg then - int n else int n))"

text \<open>The first position of a character of the class, if any.\<close>

fun find_index_opt :: "(char \<Rightarrow> bool) \<Rightarrow> string \<Rightarrow> nat option" where
  "find_index_opt P [] = None"
| "find_index_opt P (c # cs) =
     (if P c then Some 0 else map_option Suc (find_index_opt P cs))"

text \<open>The mantissa \<open>digits [. [digits]] | . digits\<close> as a rational.\<close>

definition mantissa :: "string \<Rightarrow> rat option" where
  "mantissa s =
     (case find_index_opt (\<lambda>c. c = CHR ''.'') s of
        None \<Rightarrow> map_option of_nat (decimal s)
      | Some i \<Rightarrow>
          (let ip = take i s; fp = drop (Suc i) s;
               iv = (if ip = [] then Some 0 else decimal ip);
               fv = (if fp = [] then Some 0 else decimal fp)
           in if ip = [] \<and> fp = [] then None
              else (case (iv, fv) of
                      (Some a, Some b) \<Rightarrow>
                        Some (of_nat a + of_nat b / 10 ^ length (filter is_digit fp))
                    | _ \<Rightarrow> None)))"

definition exponent :: "string \<Rightarrow> int option" where
  "exponent s =
     (let (neg, body) = signed s
      in case decimal body of
           None \<Rightarrow> None
         | Some n \<Rightarrow> Some (if neg then - int n else int n))"

definition scale10 :: "rat \<Rightarrow> int \<Rightarrow> rat" where
  "scale10 m e = (if 0 \<le> e then m * 10 ^ nat e else m / 10 ^ nat (- e))"

definition unsigned_float :: "string \<Rightarrow> pyfloat option" where
  "unsigned_float s =
     (let l = lower s
      in if l = ''inf'' \<or> l = ''infinity'' then Some PosInf
         else if l = ''nan'' then Some NaN
         else (case find_index_opt (\<lambda>c. c = CHR ''e'') l of
                 None \<Rightarrow> map_option Fin (mantissa s)
               | Some i \<Rightarrow>
                   (case (mantissa (take i s), exponent (drop (Suc i) s)) of
                      (Some m, Some e) \<Rightarrow> Some (Fin (scale10 m e))
                    | _ \<Rightarrow> None)))"

definition negate :: "pyfloat \<Rightarrow> pyfloat" where
  "negate x = (case x of Fin r \<Rightarrow> Fin (- r) | PosInf \<Rightarrow> NegInf | NegInf \<Rightarrow> PosInf | NaN \<Rightarrow> NaN)"

text \<open>\<open>float(s)\<close>; \<open>None\<close> is the \<open>ValueError\<close>.\<close>

definition py_float :: "string \<Rightarrow> pyfloat option" where
  "py_float s =
     (let (neg, body) = signed (strip_number s)
      in case unsigned_float body of
           None \<Rightarrow> None
         | Some x \<Rightarrow> Some (if neg then negate x else x))"

section \<open>The time parser\<close>

text \<open>
  \<open>parse_time\<close> of the source. Every exception of the \<open>try\<close> block is caught there and
  the function falls through to \<open>return 0, 0, 0\<close>, as it does when the number of parts
  is below three.
\<close>

definition re_split :: "string \<Rightarrow> string list" where
  "re_split s = split_chars (\<lambda>c. c = CHR '':'' \<or> c = CHR ''.'') s"

definition parse_time :: "string \<Rightarrow> int \<times> int \<times> pyfloat" where
  "parse_time time_str =
     (let parts = re_split time_str
      in if length parts = 3 then
           (case (py_int (parts ! 0), py_float (parts ! 1)) of
              (Some m, Some s) \<Rightarrow> (0, m, s)
            | _ \<Rightarrow> (0, 0, Fin 0))
         else if length parts \<ge> 4 then
           (case (py_int (parts ! 0), py_int (parts ! 1), py_float (parts ! 2)) of
              (Some h, Some m, Some s) \<Rightarrow> (h, m, s)
            | _ \<Rightarrow> (0, 0, Fin 0))
         else (0, 0, Fin 0))"


text \<open>
  \<open>timedelta(hours=h, minutes=m, seconds=s).total_seconds()\<close>: a NaN is a \<open>ValueError\<close>,
  an infinity or a value outside the range of \<open>timedelta\<close> (at most 999999999 days in
  magnitude) an \<open>OverflowError\<close>.
\<close>

definition total_seconds :: "int \<Rightarrow> int \<Rightarrow> pyfloat \<Rightarrow> exn + rat" where
  "total_seconds h m s =
     (case s of
        NaN \<Rightarrow> Inl ValueError
      | PosInf \<Rightarrow> Inl OverflowError
      | NegInf \<Rightarrow> Inl OverflowError
      | Fin r \<Rightarrow>
          (let t = of_int h * 3600 + of_int m * 60 + r
           in if t < - (999999999 * 86400) \<or> 1000000000 * 86400 \<le> t then Inl OverflowError
              else Inr t))"

definition seconds_of :: "string \<Rightarrow> exn + rat" where
  "seconds_of time_str = (case parse_time time_str of (h, m, s) \<Rightarrow> total_seconds h m s)"

section \<open>The diagnostic stream of the encoder\<close>

text \<open>
  The stream is the list of lines still to be read, each with its line terminator.
  \<open>readline\<close> returns the next line, and the empty string once the stream is exhausted.
\<close>

definition readline :: "string list \<Rightarrow> string \<times> string list" where
  "readline stream = (case stream of [] \<Rightarrow> ([], []) | line # rest \<Rightarrow> (line, rest))"

text \<open>\<open>line.split('Duration: ')[1].split(',')[0].strip()\<close>, then the conversion.\<close>

definition duration_of_line :: "string \<Rightarrow> exn + rat" where
  "duration_of_line line =
     (case index (split_str (CHR ''D'') ''uration: '' line) 1 of
        Inl e \<Rightarrow> Inl e
      | Inr piece \<Rightarrow>
          (case index (split_chars (\<lambda>c. c = CHR '','') piece) 0 of
             Inl e \<Rightarrow> Inl e
           | Inr time_str \<Rightarrow> seconds_of (strip time_str)))"

text \<open>\<open>line.split('time=')[1].split()[0]\<close>, then the conversion.\<close>

definition progress_of_line :: "string \<Rightarrow> exn + rat" where
  "progress_of_line line =
     (case index (split_str (CHR ''t'') ''ime='' line) 1 of
        Inl e \<Rightarrow> Inl e
      | Inr piece \<Rightarrow>
          (case index (split_ws piece) 0 of
             Inl e \<Rightarrow> Inl e
           | Inr time_str \<Rightarrow> seconds_of time_str))"

text \<open>
  The first loop of \<open>compress_video\<close>: it leaves only through \<open>break\<close> (or an exception)
  at a line that contains \<open>Duration:\<close>. The result is the duration, or the exception
  raised while converting it, and the rest of the stream; \<open>None\<close> means that the loop
  never ends.
\<close>

partial_function (option) scan_duration :: "string list \<Rightarrow> ((exn + rat) \<times> string list) option"
  where
  "scan_duration stream =
     (if contains ''Duration:'' (fst (readline stream))
      then Some (duration_of_line (fst (readline stream)), snd (readline stream))
      else scan_duration (snd (readline stream)))"

declare scan_duration.simps [code]

text \<open>
  The second loop: it ends when \<open>readline\<close> returns the empty string and the process has
  exited (\<open>poll()\<close> is not \<open>None\<close>), which in this model is the end of the list. \<open>n\<close> is
  the position of the file's progress bar.
\<close>

fun track_progress :: "rat \<Rightarrow> string list \<Rightarrow> exn + rat" where
  "track_progress n [] = Inr n"
| "track_progress n (line # rest) =
     (if contains ''time='' line then
        (case progress_of_line line of
           Inl e \<Rightarrow> Inl e
         | Inr current_time \<Rightarrow> track_progress current_time rest)
      else track_progress n rest)"

text \<open>Both loops: the duration and the last progress value, or the exception raised.\<close>

definition supervise :: "string list \<Rightarrow> (exn + rat \<times> rat) option" where
  "supervise stream =
     (case scan_duration stream of
        None \<Rightarrow> None
      | Some (Inl e, rest) \<Rightarrow> Some (Inl e)
      | Some (Inr duration, rest) \<Rightarrow>
          (case track_progress 0 rest of
             Inl e \<Rightarrow> Some (Inl e)
           | Inr n \<Rightarrow> Some (Inr (duration, n))))"

section \<open>Files and paths\<close>

text \<open>
  The file system maps the path of every regular file to its size in bytes. The
  directories \<open>compressed\<close> and \<open>skipped\<close> exist (\<open>init_folders\<close> runs first), and an
  operation fails only when its file is missing.
\<close>

type_synonym path = string
type_synonym fs = "path \<Rightarrow> nat option"

definition path_exists :: "fs \<Rightarrow> path \<Rightarrow> bool" where
  "path_exists files p = (files p \<noteq> None)"

definition getsize :: "fs \<Rightarrow> path \<Rightarrow> exn + nat" where
  "getsize files p = (case files p of None \<Rightarrow> Inl FileNotFoundError | Some n \<Rightarrow> Inr n)"

definition os_remove :: "fs \<Rightarrow> path \<Rightarrow> exn + fs" where
  "os_remove files p =
     (case files p of None \<Rightarrow> Inl FileNotFoundError | Some n \<Rightarrow> Inr (files(p := None)))"

definition os_rename :: "fs \<Rightarrow> path \<Rightarrow> path \<Rightarrow> exn + fs" where
  "os_rename files src dst =
     (case files src of
        None \<Rightarrow> Inl FileNotFoundError
      | Some n \<Rightarrow> Inr ((files(src := None))(dst := Some n)))"

text \<open>\<open>os.path.join\<close> and \<open>os.path.basename\<close> (POSIX).\<close>

definition join :: "path \<Rightarrow> path \<Rightarrow> path" where
  "join a b =
     (if startswith b ''/'' then b
      else if a = [] \<or> endswith a ''/'' then a @ b
      else a @ ''/'' @ b)"

definition basename :: "path \<Rightarrow> path" where
  "basename p = last (split_chars (\<lambda>c. c = CHR ''/'') p)"

text \<open>Bytes to the megabytes of the source (\<open>/ (1024 ** 2)\<close>).\<close>

definition mb :: "nat \<Rightarrow> rat" where
  "mb n = of_nat n / 1048576"

section \<open>Encoder profiles\<close>

record config =
  encoder :: string
  preset :: string
  crf_param :: string
  extra_params :: "string list option"

definition GPU_CONFIG :: "string \<Rightarrow> config option" where
  "GPU_CONFIG gpu_type =
     (if gpu_type = ''nvidia'' then
        Some \<lparr>encoder = ''h264_nvenc'', preset = ''p6'', crf_param = ''-cq:v'',
              extra_params = Some [''-rc:v'', ''constqp'']\<rparr>
      else if gpu_type = ''amd'' then
        Some \<lparr>encoder = ''h264_amf'', preset = ''speed'', crf_param = ''-qp_i'',
              extra_params = None\<rparr>
      else if gpu_type = ''intel'' then
        Some \<lparr>encoder = ''h264_qsv'', preset = ''faster'', crf_param = ''-global_quality'',
              extra_params = None\<rparr>
      else if gpu_type = ''cpu'' then
        Some \<lparr>encoder = ''libx264'', preset = ''fast'', crf_param = ''-crf'',
              extra_params = None\<rparr>
      else None)"

text \<open>\<open>str(crf)\<close>\<close>

function str_nat :: "nat \<Rightarrow> string" where
  "str_nat n =
     (if n < 10 then [char_of (48 + n)]
      else str_nat (n div 10) @ [char_of (48 + n mod 10)])"
  by pat_completeness auto
termination
  by (relation "measure (\<lambda>n. n)") auto

declare str_nat.simps [simp del]

definition str_int :: "int \<Rightarrow> string" where
  "str_int i = (if i < 0 then CHR ''-'' # str_nat (nat (- i)) else str_nat (nat i))"

definition command :: "config \<Rightarrow> string \<Rightarrow> path \<Rightarrow> path \<Rightarrow> int \<Rightarrow> string list" where
  "command cfg gpu_type input_path output_path crf =
     [''ffmpeg'', ''-hide_banner'', ''-y'',
      ''-hwaccel'', (if gpu_type \<noteq> ''cpu'' then ''auto'' else ''none''),
      ''-i'', input_path,
      ''-c:v'', encoder cfg,
      ''-preset'', preset cfg,
      crf_param cfg, str_int crf,
      ''-c:a'', ''copy'',
      ''-movflags'', ''+faststart'',
      output_path]
     @ (case extra_params cfg of None \<Rightarrow> [] | Some extra \<Rightarrow> extra)"

section \<open>The encoding process\<close>

text \<open>
  What one run of the external tool does: the lines it writes to its diagnostic stream,
  its exit status, and the size of the file it leaves at the destination path (\<open>None\<close>
  when it writes none). The tool is a function of its command line and of the source
  file, which the model knows by its size.
\<close>

record process =
  stderr :: "string list"
  returncode :: int
  written :: "nat option"

type_synonym tool = "string list \<Rightarrow> nat \<Rightarrow> process"

definition launch :: "process \<Rightarrow> fs \<Rightarrow> path \<Rightarrow> fs" where
  "launch p files output_path =
     (case written p of None \<Rightarrow> files | Some n \<Rightarrow> files(output_path := Some n))"

section \<open>One compression job\<close>

text \<open>The returned triple \<open>(original_size, compressed_size, skipped)\<close>.\<close>

type_synonym result = "rat \<times> rat \<times> bool"

text \<open>
  How the \<open>try\<close> block of \<open>compress_video\<close> ends: with a \<open>return\<close>, or with an exception,
  the files as they are then, and \<open>original_size\<close> if that local is bound.
\<close>

datatype attempt = Return result fs | Raise exn fs "rat option"

text \<open>Lines 194 to 207: the exit status, the measurement and the effectiveness check.\<close>

definition check_result ::
  "process \<Rightarrow> fs \<Rightarrow> path \<Rightarrow> path \<Rightarrow> string \<Rightarrow> rat \<Rightarrow> attempt" where
  "check_result p files input_path output_path filename original_size =
     (if returncode p \<noteq> 0 then Raise (RuntimeError (returncode p)) files (Some original_size)
      else
        (case getsize files output_path of
           Inl e \<Rightarrow> Raise e files (Some original_size)
         | Inr n \<Rightarrow>
             (let compressed_size = mb n
              in if compressed_size \<ge> original_size then
                   (case os_remove files output_path of
                      Inl e \<Rightarrow> Raise e files (Some original_size)
                    | Inr files' \<Rightarrow>
                        (case os_rename files' input_path (join ''skipped'' filename) of
                           Inl e \<Rightarrow> Raise e files' (Some original_size)
                         | Inr files'' \<Rightarrow> Return (original_size, original_size, True) files''))
                 else Return (original_size, compressed_size, False) files)))"

definition try_block ::
  "tool \<Rightarrow> fs \<Rightarrow> path \<Rightarrow> path \<Rightarrow> string \<Rightarrow> string \<Rightarrow> int \<Rightarrow> attempt option" where
  "try_block ffmpeg files input_path output_path filename gpu_type crf =
     (case files input_path of
        None \<Rightarrow> Some (Raise FileNotFoundError files None)
      | Some size_bytes \<Rightarrow>
          if path_exists files (join ''skipped'' filename) then Some (Return (0, 0, True) files)
          else
            (let original_size = mb size_bytes
             in case GPU_CONFIG gpu_type of
                  None \<Rightarrow> Some (Raise KeyError files (Some original_size))
                | Some cfg \<Rightarrow>
                    (let p = ffmpeg (command cfg gpu_type input_path output_path crf) size_bytes;
                         files' = launch p files output_path
                     in case supervise (stderr p) of
                          None \<Rightarrow> None
                        | Some (Inl e) \<Rightarrow> Some (Raise e files' (Some original_size))
                        | Some (Inr progress) \<Rightarrow>
                            Some (check_result p files' input_path output_path filename
                                    original_size))))"

text \<open>The \<open>except\<close> block.\<close>

definition cleanup ::
  "fs \<Rightarrow> path \<Rightarrow> path \<Rightarrow> string \<Rightarrow> rat option \<Rightarrow> (exn + result) \<times> fs" where
  "cleanup files input_path output_path filename original_size =
     (case (if path_exists files output_path then os_remove files output_path else Inr files) of
        Inl e \<Rightarrow> (Inl e, files)
      | Inr files' \<Rightarrow>
          (case (if path_exists files' input_path
                 then os_rename files' input_path (join ''skipped'' filename)
                 else Inr files') of
             Inl e \<Rightarrow> (Inl e, files')
           | Inr files'' \<Rightarrow>
               (Inr (case original_size of None \<Rightarrow> 0 | Some s \<Rightarrow> s, 0, True), files'')))"

text \<open>
  \<open>compress_video\<close>: \<open>None\<close> when the call never returns; otherwise the files it leaves
  and either the returned triple (\<open>Inr\<close>) or the exception that leaves the call (\<open>Inl\<close>).
  (The argument \<open>position\<close> only places the progress bar.)
\<close>

definition compress_video ::
  "tool \<Rightarrow> fs \<Rightarrow> path \<Rightarrow> path \<Rightarrow> string \<Rightarrow> int \<Rightarrow> ((exn + result) \<times> fs) option" where
  "compress_video ffmpeg files input_path output_folder gpu_type crf =
     (let filename = basename input_path;
          output_path = join output_folder (''compressed_'' @ filename)
      in case try_block ffmpeg files input_path output_path filename gpu_type crf of
           None \<Rightarrow> None
         | Some (Return r files') \<Rightarrow> Some (Inr r, files')
         | Some (Raise e files' original_size) \<Rightarrow>
             Some (cleanup files' input_path output_path filename original_size))"

section \<open>The outcome log\<close>

text \<open>
  The log file is absent (\<open>None\<close>) or holds a list of rows. A row holds the values that
  the source hands to \<open>round(_, 2)\<close>; their rendering with two decimals is not modelled.
\<close>

datatype cell = Text string | Number rat | Flag int

type_synonym row = "cell list"

definition header :: row where
  "header = [Text ''Filename'', Text ''Original Size (MB)'', Text ''Compressed Size (MB)'',
             Text ''Compression Ratio (%)'', Text ''Skipped'']"

definition init_log_file :: "row list option \<Rightarrow> row list option" where
  "init_log_file logf = (case logf of None \<Rightarrow> Some [header] | Some rows \<Rightarrow> Some rows)"

text \<open>\<open>a / b\<close> on floats.\<close>

definition py_div :: "rat \<Rightarrow> rat \<Rightarrow> exn + rat" where
  "py_div a b = (if b = 0 then Inl ZeroDivisionError else Inr (a / b))"

text \<open>\<open>100 - (compr_size/orig_size)*100\<close>\<close>

definition percent_saved :: "rat \<Rightarrow> rat \<Rightarrow> exn + rat" where
  "percent_saved compr_size orig_size =
     (case py_div compr_size orig_size of Inl e \<Rightarrow> Inl e | Inr q \<Rightarrow> Inr (100 - q * 100))"

text \<open>
  \<open>log_to_csv\<close>: the file is opened for appending, which creates it when absent. An
  exception is reported on the console and the log is left as it is.
\<close>

definition log_to_csv :: "string \<Rightarrow> rat \<Rightarrow> rat \<Rightarrow> bool \<Rightarrow> row list option \<Rightarrow> row list option"
  where
  "log_to_csv filename orig_size compr_size skipped logf =
     (case (if orig_size > 0 then percent_saved compr_size orig_size else Inr 0) of
        Inl e \<Rightarrow> logf
      | Inr compression_ratio \<Rightarrow>
          Some ((case logf of None \<Rightarrow> [] | Some rows \<Rightarrow> rows)
                @ [[Text filename, Number orig_size, Number compr_size,
                    Number compression_ratio, Flag (if skipped then 1 else 0)]]))"

section \<open>The encoder probe\<close>

text \<open>
  What \<open>subprocess.run(['ffmpeg', '-encoders'], ..., check=True)\<close> meets: the tool cannot
  be started, or it exits with a status and the text of its standard output.
\<close>

datatype listing = CannotStart | Exited int string

definition subprocess_run_checked :: "listing \<Rightarrow> exn + string" where
  "subprocess_run_checked l =
     (case l of
        CannotStart \<Rightarrow> Inl FileNotFoundError
      | Exited status out \<Rightarrow> if status \<noteq> 0 then Inl (CalledProcessError status) else Inr out)"

definition get_gpu_type :: "listing \<Rightarrow> string" where
  "get_gpu_type l =
     (case subprocess_run_checked l of
        Inl e \<Rightarrow> ''cpu''
      | Inr out \<Rightarrow>
          (let encoders = lower out
           in if contains ''nvenc'' encoders then ''nvidia''
              else if contains ''amf'' encoders then ''amd''
              else if contains ''qsv'' encoders then ''intel''
              else ''cpu''))"

section \<open>The batch\<close>

datatype message =
    NothingToDo
  | Started nat string
  | Skipped string
  | Success string rat rat rat
  | Failure string exn
  | Finished

record state =
  disk :: fs
  log_file :: "row list option"
  console :: "message list"
  done_count :: nat

text \<open>The \<open>except\<close> block of the loop in \<open>main\<close>.\<close>

definition on_error :: "string \<Rightarrow> exn \<Rightarrow> state \<Rightarrow> state" where
  "on_error file e st =
     st\<lparr>console := console st @ [Failure file e],
        log_file := log_to_csv file 0 0 True (log_file st)\<rparr>"

text \<open>
  One turn of the loop in \<open>main\<close>, with its \<open>finally\<close>; \<open>None\<close> when the turn never ends.
  For an entry already in the skipped area the bar is advanced in the branch, and once
  more by the \<open>finally\<close> block that \<open>continue\<close> runs on its way out of the \<open>try\<close>.
\<close>

definition process_file :: "tool \<Rightarrow> string \<Rightarrow> int \<Rightarrow> string \<Rightarrow> state \<Rightarrow> state option" where
  "process_file ffmpeg gpu_type crf file st =
     (let input_path = join ''.'' file
      in if path_exists (disk st) (join ''skipped'' file)
         then Some (st\<lparr>done_count := done_count st + 1 + 1\<rparr>)
         else
           (case compress_video ffmpeg (disk st) input_path ''compressed'' gpu_type crf of
              None \<Rightarrow> None
            | Some (Inl e, files') \<Rightarrow>
                Some ((on_error file e (st\<lparr>disk := files'\<rparr>))
                        \<lparr>done_count := done_count st + 1\<rparr>)
            | Some (Inr (orig_size, compr_size, skipped), files') \<Rightarrow>
                (let st' = st\<lparr>disk := files',
                               log_file := log_to_csv file orig_size compr_size skipped
                                             (log_file st)\<rparr>
                 in if skipped
                    then Some (st'\<lparr>console := console st' @ [Skipped file],
                                   done_count := done_count st + 1\<rparr>)
                    else
                      (case percent_saved compr_size orig_size of
                         Inl e \<Rightarrow> Some ((on_error file e st')\<lparr>done_count := done_count st + 1\<rparr>)
                       | Inr ratio \<Rightarrow>
                           Some (st'\<lparr>console := console st'
                                           @ [Success file orig_size compr_size ratio],
                                      done_count := done_count st + 1\<rparr>)))))"

fun process_files :: "tool \<Rightarrow> string \<Rightarrow> int \<Rightarrow> string list \<Rightarrow> state \<Rightarrow> state option" where
  "process_files ffmpeg gpu_type crf [] st = Some st"
| "process_files ffmpeg gpu_type crf (file # rest) st =
     (case process_file ffmpeg gpu_type crf file st of
        None \<Rightarrow> None
      | Some st' \<Rightarrow> process_files ffmpeg gpu_type crf rest st')"

definition candidates :: "string list \<Rightarrow> string list" where
  "candidates names =
     filter (\<lambda>f. endswith (lower f) ''.mp4'' \<and> \<not> startswith f ''compressed_'') names"

text \<open>
  \<open>main\<close>, given the encoder, the answer to the encoder listing query and the names that
  \<open>os.listdir('.')\<close> returns. The progress bar of the batch starts at zero.
\<close>

definition main :: "tool \<Rightarrow> listing \<Rightarrow> string list \<Rightarrow> state \<Rightarrow> state option" where
  "main ffmpeg probe names st =
     (let st1 = st\<lparr>log_file := init_log_file (log_file st)\<rparr>;
          crf = 23;
          gpu_type = get_gpu_type probe;
          todo = candidates names
      in if todo = [] then Some (st1\<lparr>console := console st1 @ [NothingToDo]\<rparr>)
         else
           (case process_files ffmpeg gpu_type crf todo
                   (st1\<lparr>console := console st1 @ [Started (length todo) gpu_type],
                        done_count := 0\<rparr>) of
              None \<Rightarrow> None
            | Some st2 \<Rightarrow> Some (st2\<lparr>console := console st2 @ [Finished]\<rparr>)))"

text \<open>
  Any number of runs of \<open>main\<close> against one log file. Each run has its own encoder,
  probe answer, directory listing and files; the log file is handed from run to run.
\<close>

fun batch_runs ::
  "(tool \<times> listing \<times> string list \<times> fs) list \<Rightarrow> row list option \<Rightarrow> row list option option"
  where
  "batch_runs [] logf = Some logf"
| "batch_runs ((ffmpeg, probe, names, files) # rest) logf =
     (case main ffmpeg probe names
             \<lparr>disk = files, log_file = logf, console = [], done_count = 0\<rparr> of
        None \<Rightarrow> None
      | Some st \<Rightarrow> batch_runs rest (log_file st))"

definition rows_of :: "row list option \<Rightarrow> row list" where
  "rows_of logf = (case logf of None \<Rightarrow> [] | Some rows \<Rightarrow> rows)"

section \<open>The effect of one turn of the batch on the files\<close>

text \<open>
  Two functions for reasoning about repeated runs; they are not in the source. \<open>fate\<close>
  collects what decides how a launched job ends, given the size of the source and the
  destination file found before the launch: \<open>None\<close> when the job never returns,
  \<open>Some None\<close> when the source is moved to the skipped area, \<open>Some (Some c)\<close> when the
  source stays and the destination has size \<open>c\<close>. \<open>step_disk\<close> is the effect of one
  turn of the loop of \<open>main\<close> on the files, written with the three paths of a directory
  entry. Lemma \<open>process_file_disk\<close> below shows that \<open>process_file\<close> does exactly this.
\<close>

definition fate :: "tool \<Rightarrow> string \<Rightarrow> int \<Rightarrow> path \<Rightarrow> path \<Rightarrow> nat \<Rightarrow> nat option \<Rightarrow> nat option option"
  where
  "fate ffmpeg gpu_type crf input_path output_path size_bytes old =
     (case GPU_CONFIG gpu_type of
        None \<Rightarrow> Some None
      | Some cfg \<Rightarrow>
          (let p = ffmpeg (command cfg gpu_type input_path output_path crf) size_bytes
           in case supervise (stderr p) of
                None \<Rightarrow> None
              | Some (Inl e) \<Rightarrow> Some None
              | Some (Inr progress) \<Rightarrow>
                  if returncode p \<noteq> 0 then Some None
                  else (case (case written p of None \<Rightarrow> old | Some c \<Rightarrow> Some c) of
                          None \<Rightarrow> Some None
                        | Some c \<Rightarrow> if mb c \<ge> mb size_bytes then Some None else Some (Some c))))"


section \<open>The shapes of time text named by the specification\<close>






section \<open>The duration scan\<close>

lemma scan_duration_Some_marker:
  assumes "scan_duration stream = Some y"
  shows "\<exists>line\<in>set stream. contains ''Duration:'' line"
proof (rule scan_duration.raw_induct [OF _ assms])
  fix scan :: "string list \<Rightarrow> ((exn + rat) \<times> string list) option" and s r
  assume IH: "\<And>x y. scan x = Some y \<Longrightarrow> \<exists>line\<in>set x. contains ''Duration:'' line"
    and body: "(if contains ''Duration:'' (fst (readline s))
                then Some (duration_of_line (fst (readline s)), snd (readline s))
                else scan (snd (readline s))) = Some r"
  show "\<exists>line\<in>set s. contains ''Duration:'' line"
  proof (cases s)
    case Nil
    with body have "scan [] = Some r" by (simp add: readline_def)
    from IH [OF this] show ?thesis by simp
  next
    case (Cons line rest)
    show ?thesis
    proof (cases "contains ''Duration:'' line")
      case True
      with Cons show ?thesis by auto
    next
      case False
      with body Cons have "scan rest = Some r" by (simp add: readline_def)
      from IH [OF this] Cons show ?thesis by auto
    qed
  qed
qed

text \<open>Without a line that contains \<open>Duration:\<close> the first loop never ends.\<close>

lemma scan_duration_diverges:
  "\<forall>line\<in>set stream. \<not> contains ''Duration:'' line \<Longrightarrow> scan_duration stream = None"
  using scan_duration_Some_marker [of stream] by (cases "scan_duration stream") auto

lemma scan_duration_skip:
  "\<not> contains ''Duration:'' line \<Longrightarrow> scan_duration (line # rest) = scan_duration rest"
  by (subst scan_duration.simps) (simp add: readline_def)

lemma scan_duration_hit:
  "contains ''Duration:'' line \<Longrightarrow>
   scan_duration (line # rest) = Some (duration_of_line line, rest)"
  by (subst scan_duration.simps) (simp add: readline_def)

text \<open>With such a line it ends, at the first of them.\<close>

lemma scan_duration_finds:
  "\<exists>line\<in>set stream. contains ''Duration:'' line \<Longrightarrow> \<exists>y. scan_duration stream = Some y"
proof (induction stream)
  case Nil
  then show ?case by simp
next
  case (Cons line rest)
  then show ?case
    by (cases "contains ''Duration:'' line") (auto simp: scan_duration_skip scan_duration_hit)
qed

section \<open>The time parser on the examples of the specification\<close>

text \<open>
  Claim C5. The specification expects \<open>"00:01:30.50"\<close> to parse to 90.5 seconds, the
  fractional part included. The source splits the text at the dot as well as at the
  colons and converts only the first two or three parts, so the fraction is dropped:
  the parts are \<open>00\<close>, \<open>01\<close>, \<open>30\<close>, \<open>50\<close> and the result is 90 seconds. (\<open>"02:15.00"\<close>
  gives the expected 135 seconds, its fraction being zero.)
\<close>

theorem parse_time_drops_fraction:
  "parse_time ''00:01:30.50'' = (0, 1, Fin 30) \<and>
   seconds_of ''00:01:30.50'' = Inr 90 \<and>
   seconds_of ''02:15.00'' = Inr 135"
  by code_simp

section \<open>A stream without a duration line\<close>

text \<open>
  Claim C6. The specification expects the duration scan to end when the stream ends
  before a duration line, with the duration unknown. In the source the first loop has
  no test for the end of the stream: \<open>readline\<close> keeps returning the empty string and
  the loop never ends, here for the empty stream and for the one line the encoder
  prints for an unreadable source.
\<close>

theorem scan_duration_hangs_without_marker:
  "scan_duration [] = None \<and>
   supervise [''a.mp4: Invalid data found when processing input\<newline>''] = None"
  by (simp add: scan_duration_diverges supervise_def)

text \<open>
  Claim C2. The specification expects a non-zero exit status to be handled as an
  encoding failure, with the destination removed and the source moved to the skipped
  area. When the encoder fails before it prints a duration line, the call never
  reaches the test of the exit status: it does not return.
\<close>

theorem compress_video_hangs_on_early_failure:
  "compress_video
     (\<lambda>cmd n. \<lparr>stderr = [''a.mp4: Invalid data found when processing input\<newline>''],
                returncode = 1, written = None\<rparr>)
     ((\<lambda>p. None)(''./a.mp4'' := Some 100)) ''./a.mp4'' ''compressed'' ''cpu'' 23 = None"
  by (simp add: compress_video_def try_block_def basename_def join_def path_exists_def
      GPU_CONFIG_def supervise_def scan_duration_diverges Let_def)

text \<open>
  Claim C4. The specification expects that no failure of one file stops the batch.
  Every exception is indeed caught, but a failed encode that prints no duration line
  keeps \<open>compress_video\<close> in its first loop, so the loop of \<open>main\<close> never comes to the
  second file.
\<close>

theorem batch_hangs_on_early_failure:
  "main
     (\<lambda>cmd n. \<lparr>stderr = [''a.mp4: Invalid data found when processing input\<newline>''],
                returncode = 1, written = None\<rparr>)
     (Exited 0 ''libx264'') [''a.mp4'', ''b.mp4'']
     \<lparr>disk = (\<lambda>p. None)(''./a.mp4'' := Some 100, ''./b.mp4'' := Some 50),
      log_file = None, console = [], done_count = 0\<rparr> = None"
  by (simp add: main_def candidates_def endswith_def lower_def lower_char_def get_gpu_type_def
      subprocess_run_checked_def process_file_def compress_video_def try_block_def
      basename_def join_def path_exists_def GPU_CONFIG_def supervise_def
      scan_duration_diverges Let_def)

section \<open>Malformed time text\<close>














section \<open>The encoder probe\<close>

text \<open>
  Claim C8. The probe answers \<open>nvidia\<close> when the listing names \<open>nvenc\<close>, else \<open>amd\<close> when it
  names \<open>amf\<close>, else \<open>intel\<close> when it names \<open>qsv\<close>, else \<open>cpu\<close>, without regard to case;
  when the tool cannot be started or exits with a non-zero status the answer is \<open>cpu\<close>.
  The answer is always a key of \<open>GPU_CONFIG\<close>, so the probe never stops the run.
\<close>

theorem get_gpu_type_priority:
  "get_gpu_type CannotStart = ''cpu''
   \<and> (status \<noteq> 0 \<longrightarrow> get_gpu_type (Exited status out) = ''cpu'')
   \<and> (contains ''nvenc'' (lower out) \<longrightarrow> get_gpu_type (Exited 0 out) = ''nvidia'')
   \<and> (\<not> contains ''nvenc'' (lower out) \<and> contains ''amf'' (lower out)
         \<longrightarrow> get_gpu_type (Exited 0 out) = ''amd'')
   \<and> (\<not> contains ''nvenc'' (lower out) \<and> \<not> contains ''amf'' (lower out)
        \<and> contains ''qsv'' (lower out)
         \<longrightarrow> get_gpu_type (Exited 0 out) = ''intel'')
   \<and> (\<not> contains ''nvenc'' (lower out) \<and> \<not> contains ''amf'' (lower out)
        \<and> \<not> contains ''qsv'' (lower out)
         \<longrightarrow> get_gpu_type (Exited 0 out) = ''cpu'')
   \<and> GPU_CONFIG (get_gpu_type l) \<noteq> None"
  by (auto simp: get_gpu_type_def subprocess_run_checked_def GPU_CONFIG_def Let_def
      split: listing.splits sum.splits)

theorem get_gpu_type_priority_witness:
  "get_gpu_type (Exited 1 '' V..... h264_nvenc'') = ''cpu''
   \<and> get_gpu_type (Exited 0 '' V..... h264_qsv h264_amf H264_NVENC'') = ''nvidia''
   \<and> get_gpu_type (Exited 0 '' V..... h264_qsv h264_amf'') = ''amd''
   \<and> get_gpu_type (Exited 0 '' V..... libx264 h264_qsv'') = ''intel''
   \<and> get_gpu_type (Exited 0 '' V..... libx264'') = ''cpu''"
proof -
  have 1: "contains ''nvenc'' (lower '' V..... h264_qsv h264_amf H264_NVENC'')" by code_simp
  have 2: "\<not> contains ''nvenc'' (lower '' V..... h264_qsv h264_amf'')"
     "contains ''amf'' (lower '' V..... h264_qsv h264_amf'')" by code_simp+
  have 3: "\<not> contains ''nvenc'' (lower '' V..... libx264 h264_qsv'')"
     "\<not> contains ''amf'' (lower '' V..... libx264 h264_qsv'')"
     "contains ''qsv'' (lower '' V..... libx264 h264_qsv'')" by code_simp+
  have 4: "\<not> contains ''nvenc'' (lower '' V..... libx264'')"
     "\<not> contains ''amf'' (lower '' V..... libx264'')"
     "\<not> contains ''qsv'' (lower '' V..... libx264'')" by code_simp+
  show ?thesis
    using get_gpu_type_priority [of 1 "'' V..... h264_nvenc''" CannotStart]
      get_gpu_type_priority [of 0 "'' V..... h264_qsv h264_amf H264_NVENC''" CannotStart]
      get_gpu_type_priority [of 0 "'' V..... h264_qsv h264_amf''" CannotStart]
      get_gpu_type_priority [of 0 "'' V..... libx264 h264_qsv''" CannotStart]
      get_gpu_type_priority [of 0 "'' V..... libx264''" CannotStart] 1 2 3 4
    by simp
qed

section \<open>Paths\<close>

lemma split_chars_nonempty: "split_chars P s \<noteq> []"
  by (induction s) (auto split: list.splits)

lemma split_chars_clean: "\<forall>c\<in>set s. \<not> P c \<Longrightarrow> split_chars P s = [s]"
  by (induction s) auto

lemma split_chars_sep:
  "P c \<Longrightarrow> split_chars P (xs @ c # ys) = split_chars P xs @ split_chars P ys"
proof (induction xs)
  case Nil
  then show ?case by simp
next
  case (Cons x xs)
  obtain q qs where q: "split_chars P xs = q # qs"
    using split_chars_nonempty [of P xs] by (cases "split_chars P xs") auto
  with Cons show ?case by simp
qed

lemma last_split_chars_clean: "\<forall>c\<in>set (last (split_chars P s)). \<not> P c"
proof (induction s)
  case Nil
  then show ?case by simp
next
  case (Cons x s)
  obtain q qs where q: "split_chars P s = q # qs"
    using split_chars_nonempty [of P s] by (cases "split_chars P s") auto
  with Cons show ?case by (cases qs) auto
qed

lemma basename_no_slash: "CHR ''/'' \<notin> set (basename p)"
  using last_split_chars_clean [of "\<lambda>c. c = CHR ''/''" p] by (auto simp: basename_def)

lemma endswith_slash: "endswith a ''/'' \<longleftrightarrow> (\<exists>xs. a = xs @ ''/'')"
proof -
  have "startswith s ''/'' \<longleftrightarrow> (\<exists>t. s = CHR ''/'' # t)" for s
    by (cases s) auto
  then have "endswith a ''/'' \<longleftrightarrow> (\<exists>t. rev a = CHR ''/'' # t)"
    by (simp add: endswith_def)
  also have "\<dots> \<longleftrightarrow> (\<exists>xs. a = xs @ ''/'')"
    by (metis rev_eq_Cons_iff rev_rev_ident append_Nil rev.simps)
  finally show ?thesis .
qed

lemma basename_after_slash:
  assumes "CHR ''/'' \<notin> set b"
  shows "basename (xs @ CHR ''/'' # b) = b"
proof -
  have "split_chars (\<lambda>c. c = CHR ''/'') b = [b]"
    using assms by (intro split_chars_clean) auto
  then show ?thesis
    by (simp add: basename_def split_chars_sep)
qed

lemma basename_clean:
  assumes "CHR ''/'' \<notin> set b"
  shows "basename b = b"
proof -
  have "split_chars (\<lambda>c. c = CHR ''/'') b = [b]"
    using assms by (intro split_chars_clean) auto
  then show ?thesis by (simp add: basename_def)
qed

lemma basename_join:
  assumes "CHR ''/'' \<notin> set b"
  shows "basename (join a b) = b"
proof -
  have nb: "\<not> startswith b ''/''" using assms by (cases b) auto
  consider "a = []" | xs where "a = xs @ ''/''" | "a \<noteq> []" "\<not> endswith a ''/''"
    using endswith_slash [of a] by blast
  then show ?thesis
  proof cases
    case 1
    with nb show ?thesis by (simp add: join_def basename_clean [OF assms])
  next
    case 2
    then have "endswith a ''/''" by (simp add: endswith_slash)
    with nb 2 show ?thesis
      using basename_after_slash [OF assms, of xs] by (simp add: join_def)
  next
    case 3
    with nb show ?thesis
      using basename_after_slash [OF assms, of a] by (simp add: join_def)
  qed
qed

lemma output_path_distinct:
  assumes "output_path = join output_folder (''compressed_'' @ basename input_path)"
  shows "output_path \<noteq> input_path" and "output_path \<noteq> join ''skipped'' (basename input_path)"
proof -
  have b: "basename output_path = ''compressed_'' @ basename input_path"
    unfolding assms by (rule basename_join) (use basename_no_slash [of input_path] in auto)
  have "basename output_path \<noteq> basename input_path"
    unfolding b by (metis append_self_conv2 list.distinct(1))
  then show "output_path \<noteq> input_path" by auto
  have "basename (join ''skipped'' (basename input_path)) = basename input_path"
    by (rule basename_join) (rule basename_no_slash)
  with b show "output_path \<noteq> join ''skipped'' (basename input_path)"
    by (metis append_self_conv2 list.distinct(1))
qed

section \<open>The outcomes of one job\<close>

lemma cleanup_skipped: "cleanup files i out fn orig = (Inr (a, b, sk), f) \<Longrightarrow> sk \<and> b = 0"
  by (auto simp: cleanup_def split: sum.splits if_splits)

lemma mb_nonneg: "0 \<le> mb n"
  by (simp add: mb_def)

lemma check_result_effective:
  "check_result p files i out fn orig = Return (a, b, False) f \<Longrightarrow> 0 \<le> b \<and> b < a \<and> a = orig"
  by (auto simp: check_result_def Let_def mb_nonneg split: sum.splits if_splits)

lemma try_block_effective:
  "try_block ffmpeg files i out fn gpu crf = Some (Return (a, b, False) f) \<Longrightarrow> 0 \<le> b \<and> b < a"
  by (auto simp: try_block_def Let_def split: option.splits if_splits sum.splits dest: check_result_effective)

lemma supervise_sample: "supervise [''  Duration: 00:00:10.00, start: 0.000000, bitrate: 80 kb/s\<newline>'',
     ''frame=  250 fps=0.0 q=-1.0 size=       0kB time=00:00:05.00 bitrate=N/A\<newline>''] = Some (Inr (10, 5))"
  by code_simp

text \<open>
  Claim C10. When \<open>compress_video\<close> returns with \<open>skipped = False\<close>, the compressed size
  is not negative and is below the original size, which is therefore positive: the
  division in \<open>main\<close> raises no \<open>ZeroDivisionError\<close>, and \<open>log_to_csv\<close> writes its row
  with the ratio computed under its guard.
\<close>

theorem compress_video_effective_positive:
  assumes "compress_video ffmpeg files input_path output_folder gpu_type crf
             = Some (Inr (orig_size, compr_size, False), files')"
  shows "0 \<le> compr_size \<and> compr_size < orig_size \<and> 0 < orig_size
         \<and> percent_saved compr_size orig_size = Inr (100 - compr_size / orig_size * 100)
         \<and> log_to_csv file orig_size compr_size False logf
             = Some (rows_of logf @ [[Text file, Number orig_size, Number compr_size,
                                       Number (100 - compr_size / orig_size * 100), Flag 0]])"
proof -
  from assms have "0 \<le> compr_size \<and> compr_size < orig_size"
    by (auto simp: compress_video_def Let_def split: option.splits attempt.splits
        dest: try_block_effective cleanup_skipped)
  then show ?thesis
    by (auto simp: percent_saved_def py_div_def log_to_csv_def rows_of_def split: option.splits)
qed

theorem compress_video_effective_positive_witness:
  "compress_video
       (\<lambda>cmd n. \<lparr>stderr = [''  Duration: 00:00:10.00, start: 0.000000, bitrate: 80 kb/s\<newline>'',
     ''frame=  250 fps=0.0 q=-1.0 size=       0kB time=00:00:05.00 bitrate=N/A\<newline>''],
                  returncode = 0, written = Some 40\<rparr>)
       ((\<lambda>p. None)(''./a.mp4'' := Some 100)) ''./a.mp4'' ''compressed'' ''cpu'' 23
     = Some (Inr (mb 100, mb 40, False),
             (\<lambda>p. None)(''./a.mp4'' := Some 100, ''compressed/compressed_a.mp4'' := Some 40))
   \<and> 0 < mb 100 \<and> percent_saved (mb 40) (mb 100) = Inr 60"
proof -
  have run: "compress_video
       (\<lambda>cmd n. \<lparr>stderr = [''  Duration: 00:00:10.00, start: 0.000000, bitrate: 80 kb/s\<newline>'',
     ''frame=  250 fps=0.0 q=-1.0 size=       0kB time=00:00:05.00 bitrate=N/A\<newline>''],
                  returncode = 0, written = Some 40\<rparr>)
       ((\<lambda>p. None)(''./a.mp4'' := Some 100)) ''./a.mp4'' ''compressed'' ''cpu'' 23
     = Some (Inr (mb 100, mb 40, False),
             (\<lambda>p. None)(''./a.mp4'' := Some 100, ''compressed/compressed_a.mp4'' := Some 40))"
    by (simp add: compress_video_def try_block_def check_result_def basename_def join_def
        endswith_def path_exists_def GPU_CONFIG_def supervise_sample launch_def getsize_def
        mb_def Let_def)
  from compress_video_effective_positive [OF run, of "''a.mp4''" None] run
  show ?thesis by (simp add: mb_def)
qed

text \<open>
  Claim C1. When the source exists and is not yet in the skipped area, the encoder is
  supervised to its end, exits with status 0 and leaves a destination file that is not
  smaller than the source, \<open>compress_video\<close> removes the destination, moves the source
  into the skipped area under its name and returns the original size twice, with
  \<open>skipped = True\<close>.
\<close>

theorem compress_video_ineffective:
  assumes src: "files input_path = Some size_bytes"
    and marker: "\<not> path_exists files (join ''skipped'' (basename input_path))"
    and cfg: "GPU_CONFIG gpu_type = Some cfg"
    and out: "output_path = join output_folder (''compressed_'' @ basename input_path)"
    and p: "p = ffmpeg (command cfg gpu_type input_path output_path crf) size_bytes"
    and sup: "supervise (stderr p) = Some (Inr progress)"
    and rc: "returncode p = 0"
    and dest: "launch p files output_path output_path = Some n"
    and ineffective: "mb n \<ge> mb size_bytes"
  shows "\<exists>files'. compress_video ffmpeg files input_path output_folder gpu_type crf
            = Some (Inr (mb size_bytes, mb size_bytes, True), files')
          \<and> files' output_path = None
          \<and> files' input_path = None
          \<and> files' (join ''skipped'' (basename input_path)) = Some size_bytes"
proof -
  let ?marker = "join ''skipped'' (basename input_path)"
  let ?files1 = "launch p files output_path"
  note d = output_path_distinct [OF out]
  have mi: "?marker \<noteq> input_path" using src marker by (auto simp: path_exists_def)
  have src1: "?files1 input_path = Some size_bytes"
    using src d(1) by (simp add: launch_def split: option.splits)
  let ?files3 = "((?files1(output_path := None))(input_path := None))(?marker := Some size_bytes)"
  have chk: "check_result p ?files1 input_path output_path (basename input_path) (mb size_bytes)
         = Return (mb size_bytes, mb size_bytes, True) ?files3"
    using rc dest ineffective src1 d
    by (simp add: check_result_def getsize_def os_remove_def os_rename_def Let_def)
  have "try_block ffmpeg files input_path output_path (basename input_path) gpu_type crf
         = Some (Return (mb size_bytes, mb size_bytes, True) ?files3)"
    using src marker cfg sup chk unfolding p
    by (simp add: try_block_def Let_def)
  then have "compress_video ffmpeg files input_path output_folder gpu_type crf
         = Some (Inr (mb size_bytes, mb size_bytes, True), ?files3)"
    unfolding compress_video_def Let_def out by simp
  moreover have "?files3 output_path = None" using d by simp
  moreover have "?files3 input_path = None" using mi by simp
  moreover have "?files3 ?marker = Some size_bytes" by simp
  ultimately show ?thesis by blast
qed

theorem compress_video_ineffective_witness:
  "\<exists>files'. compress_video
       (\<lambda>cmd n. \<lparr>stderr = [''  Duration: 00:00:10.00, start: 0.000000, bitrate: 80 kb/s\<newline>'',
     ''frame=  250 fps=0.0 q=-1.0 size=       0kB time=00:00:05.00 bitrate=N/A\<newline>''],
                  returncode = 0, written = Some 55\<rparr>)
       ((\<lambda>p. None)(''./b.mp4'' := Some 50)) ''./b.mp4'' ''compressed'' ''cpu'' 23
     = Some (Inr (mb 50, mb 50, True), files')
     \<and> files' ''compressed/compressed_b.mp4'' = None
     \<and> files' ''./b.mp4'' = None
     \<and> files' ''skipped/b.mp4'' = Some 50"
proof -
  let ?t = "\<lambda>(cmd :: string list) (n :: nat). \<lparr>stderr = [''  Duration: 00:00:10.00, start: 0.000000, bitrate: 80 kb/s\<newline>'',
     ''frame=  250 fps=0.0 q=-1.0 size=       0kB time=00:00:05.00 bitrate=N/A\<newline>''],
                  returncode = 0, written = Some 55\<rparr>"
  let ?f = "(\<lambda>p. None)(''./b.mp4'' := Some (50::nat))"
  have b: "basename ''./b.mp4'' = ''b.mp4''" by (simp add: basename_def)
  have j1: "join ''skipped'' ''b.mp4'' = ''skipped/b.mp4''" by (simp add: join_def endswith_def)
  have j2: "join ''compressed'' ''compressed_b.mp4'' = ''compressed/compressed_b.mp4''" by (simp add: join_def endswith_def)
  have "\<exists>files'. compress_video ?t ?f ''./b.mp4'' ''compressed'' ''cpu'' 23
            = Some (Inr (mb 50, mb 50, True), files')
          \<and> files' ''compressed/compressed_b.mp4'' = None
          \<and> files' ''./b.mp4'' = None
          \<and> files' (join ''skipped'' (basename ''./b.mp4'')) = Some 50"
    by (rule compress_video_ineffective [where cfg = "the (GPU_CONFIG ''cpu'')" and n = 55 and progress = "(10, 5)"
            and p = "?t [] 0"])
       (simp_all add: b j1 j2 path_exists_def GPU_CONFIG_def supervise_sample launch_def mb_def)
  then show ?thesis by (simp add: b j1)
qed

section \<open>The log across runs\<close>

lemma log_to_csv_appends:
  "log_to_csv file orig_size compr_size skipped logf
     = Some (rows_of logf @ [[Text file, Number orig_size, Number compr_size,
                Number (if orig_size > 0 then 100 - compr_size / orig_size * 100 else 0),
                Flag (if skipped then 1 else 0)]])"
  by (simp add: log_to_csv_def percent_saved_def py_div_def rows_of_def split: option.splits)

lemma data_row_not_header: "[Text file, Number a, Number b, Number c, Flag d] \<noteq> header"
  by (simp add: header_def)

lemma process_file_log:
  assumes "process_file ffmpeg gpu_type crf file st = Some st'"
  shows "\<exists>new. rows_of (log_file st') = rows_of (log_file st) @ new \<and> header \<notin> set new
           \<and> (log_file st \<noteq> None \<longrightarrow> log_file st' \<noteq> None)"
proof (cases "path_exists (disk st) (join ''skipped'' file)")
  case True
  with assms have "log_file st' = log_file st" by (auto simp: process_file_def)
  then show ?thesis by simp
next
  case False
  with assms obtain r files' where
    cv: "compress_video ffmpeg (disk st) (join ''.'' file) ''compressed'' gpu_type crf = Some (r, files')"
    by (auto simp: process_file_def Let_def split: option.splits)
  show ?thesis
  proof (cases r)
    case (Inl e)
    with assms False cv have "log_file st' = log_to_csv file 0 0 True (log_file st)"
      by (auto simp: process_file_def Let_def on_error_def)
    then show ?thesis
      by (simp add: log_to_csv_appends rows_of_def header_def)
  next
    case (Inr res)
    obtain a b sk where res: "res = (a, b, sk)" by (cases res)
    let ?l1 = "log_to_csv file a b sk (log_file st)"
    from assms False cv Inr res
    have "log_file st' = ?l1 \<or> log_file st' = log_to_csv file 0 0 True ?l1"
      by (auto simp: process_file_def Let_def on_error_def split: if_splits sum.splits)
    then show ?thesis
    proof
      assume "log_file st' = ?l1"
      then show ?thesis
        by (simp add: log_to_csv_appends rows_of_def header_def)
    next
      assume "log_file st' = log_to_csv file 0 0 True ?l1"
      then show ?thesis
        by (simp add: log_to_csv_appends rows_of_def header_def)
    qed
  qed
qed

lemma process_files_log:
  "process_files ffmpeg gpu_type crf todo st = Some st' \<Longrightarrow>
   \<exists>new. rows_of (log_file st') = rows_of (log_file st) @ new \<and> header \<notin> set new
           \<and> (log_file st \<noteq> None \<longrightarrow> log_file st' \<noteq> None)"
proof (induction todo arbitrary: st)
  case Nil
  then show ?case by simp
next
  case (Cons f rest)
  from Cons.prems obtain st1 where
    one: "process_file ffmpeg gpu_type crf f st = Some st1"
    and more: "process_files ffmpeg gpu_type crf rest st1 = Some st'"
    by (auto split: option.splits)
  from process_file_log [OF one] obtain new1 where
    n1: "rows_of (log_file st1) = rows_of (log_file st) @ new1" "header \<notin> set new1"
        "log_file st \<noteq> None \<longrightarrow> log_file st1 \<noteq> None" by blast
  from Cons.IH [OF more] obtain new2 where
    n2: "rows_of (log_file st') = rows_of (log_file st1) @ new2" "header \<notin> set new2"
        "log_file st1 \<noteq> None \<longrightarrow> log_file st' \<noteq> None" by blast
  from n1 n2 have "rows_of (log_file st') = rows_of (log_file st) @ (new1 @ new2)"
    "header \<notin> set (new1 @ new2)" "log_file st \<noteq> None \<longrightarrow> log_file st' \<noteq> None"
    by auto
  then show ?case by blast
qed

lemma main_log:
  assumes "main ffmpeg probe names st = Some st'"
  shows "\<exists>new. log_file st' = Some (rows_of (init_log_file (log_file st)) @ new)
           \<and> header \<notin> set new"
proof (cases "candidates names = []")
  case True
  with assms have "log_file st' = init_log_file (log_file st)"
    by (auto simp: main_def Let_def)
  then show ?thesis
    by (auto simp: init_log_file_def rows_of_def split: option.splits)
next
  case False
  let ?st1 = "st\<lparr>log_file := init_log_file (log_file st)\<rparr>"
  let ?st2 = "?st1\<lparr>console := console ?st1 @ [Started (length (candidates names)) (get_gpu_type probe)],
                   done_count := 0\<rparr>"
  from assms False obtain st3 where
    run: "process_files ffmpeg (get_gpu_type probe) 23 (candidates names) ?st2 = Some st3"
    and fin: "st' = st3\<lparr>console := console st3 @ [Finished]\<rparr>"
    by (auto simp: main_def Let_def split: option.splits)
  from process_files_log [OF run] obtain new where
    "rows_of (log_file st3) = rows_of (init_log_file (log_file st)) @ new"
    "header \<notin> set new" "log_file st3 \<noteq> None"
    by (auto simp: init_log_file_def split: option.splits)
  with fin show ?thesis
    by (cases "log_file st3") (auto simp: rows_of_def)
qed

lemma batch_runs_existing_log:
  "batch_runs runs (Some rows) = Some logf' \<Longrightarrow>
   \<exists>new. logf' = Some (rows @ new) \<and> header \<notin> set new"
proof (induction runs arbitrary: rows)
  case Nil
  then show ?case by auto
next
  case (Cons run rest)
  obtain ffmpeg probe names files where run: "run = (ffmpeg, probe, names, files)"
    by (cases run)
  from Cons.prems run obtain st where
    m: "main ffmpeg probe names \<lparr>disk = files, log_file = Some rows, console = [], done_count = 0\<rparr> = Some st"
    and more: "batch_runs rest (log_file st) = Some logf'"
    by (auto split: option.splits)
  from main_log [OF m] obtain new1 where
    n1: "log_file st = Some (rows @ new1)" "header \<notin> set new1"
    by (auto simp: init_log_file_def rows_of_def)
  from Cons.IH [of "rows @ new1"] more n1 obtain new2 where
    "logf' = Some ((rows @ new1) @ new2)" "header \<notin> set new2" by auto
  with n1 have "logf' = Some (rows @ (new1 @ new2))" "header \<notin> set (new1 @ new2)" by auto
  then show ?case by blast
qed

lemma count_list_absent: "x \<notin> set xs \<Longrightarrow> count_list xs x = 0"
  by (induction xs) auto

text \<open>
  Claim C9. \<open>init_log_file\<close> writes the header only when the log file is absent and
  leaves an existing log as it is. After any number of runs of \<open>main\<close> (at least one)
  against the same log file, the log is the one the first run found (or the header
  alone, if there was none) followed by rows that are not the header: the earlier
  rows are kept, and a log that started absent holds the header exactly once.
\<close>

theorem log_header_once:
  "init_log_file None = Some [header]
   \<and> init_log_file (Some rows) = Some rows
   \<and> (batch_runs runs logf = Some logf' \<and> runs \<noteq> [] \<longrightarrow>
        (\<exists>new. logf' = Some ((case logf of None \<Rightarrow> [header] | Some old \<Rightarrow> old) @ new)
               \<and> header \<notin> set new
               \<and> count_list (rows_of logf') header
                   = (case logf of None \<Rightarrow> 1 | Some old \<Rightarrow> count_list old header)))"
proof (intro conjI impI)
  show "init_log_file None = Some [header]" by (simp add: init_log_file_def)
  show "init_log_file (Some rows) = Some rows" by (simp add: init_log_file_def)
  assume a: "batch_runs runs logf = Some logf' \<and> runs \<noteq> []"
  let ?base = "case logf of None \<Rightarrow> [header] | Some old \<Rightarrow> old"
  from a obtain run rest where runs: "runs = run # rest" by (cases runs) auto
  obtain ffmpeg probe names files where run: "run = (ffmpeg, probe, names, files)"
    by (cases run)
  from a runs run obtain st where
    m: "main ffmpeg probe names \<lparr>disk = files, log_file = logf, console = [], done_count = 0\<rparr> = Some st"
    and more: "batch_runs rest (log_file st) = Some logf'"
    by (auto split: option.splits)
  from main_log [OF m] obtain new1 where
    n1: "log_file st = Some (?base @ new1)" "header \<notin> set new1"
    by (auto simp: init_log_file_def rows_of_def split: option.splits)
  from batch_runs_existing_log [of rest "?base @ new1" logf'] more n1 obtain new2 where
    n2: "logf' = Some ((?base @ new1) @ new2)" "header \<notin> set new2" by auto
  have "logf' = Some (?base @ (new1 @ new2))" "header \<notin> set (new1 @ new2)"
    using n1 n2 by auto
  moreover from this have "count_list (rows_of logf') header
       = (case logf of None \<Rightarrow> 1 | Some old \<Rightarrow> count_list old header)"
    by (auto simp: rows_of_def count_list_absent split: option.splits)
  ultimately show "\<exists>new. logf' = Some (?base @ new) \<and> header \<notin> set new
               \<and> count_list (rows_of logf') header
                   = (case logf of None \<Rightarrow> 1 | Some old \<Rightarrow> count_list old header)"
    by blast
qed

theorem log_header_once_witness:
  "\<exists>logf'. batch_runs
          [(\<lambda>cmd n. \<lparr>stderr = [''  Duration: 00:00:10.00, start: 0.000000, bitrate: 80 kb/s\<newline>''],
                       returncode = 0, written = Some (n div 2)\<rparr>,
            CannotStart, [''a.mp4''], (\<lambda>p. None)(''./a.mp4'' := Some 100)),
           (\<lambda>cmd n. \<lparr>stderr = [''  Duration: 00:00:10.00, start: 0.000000, bitrate: 80 kb/s\<newline>''],
                       returncode = 0, written = Some (n div 2)\<rparr>,
            CannotStart, [''a.mp4''],
            (\<lambda>p. None)(''./a.mp4'' := Some 100, ''compressed/compressed_a.mp4'' := Some 50))]
          None = Some logf'
     \<and> count_list (rows_of logf') header = 1 \<and> length (rows_of logf') = 3"
proof -
  let ?runs = "[(\<lambda>(cmd :: string list) (n :: nat). \<lparr>stderr = [''  Duration: 00:00:10.00, start: 0.000000, bitrate: 80 kb/s\<newline>''],
                       returncode = 0, written = Some (n div 2)\<rparr>,
            CannotStart, [''a.mp4''], (\<lambda>p. None)(''./a.mp4'' := Some (100::nat))),
           (\<lambda>cmd n. \<lparr>stderr = [''  Duration: 00:00:10.00, start: 0.000000, bitrate: 80 kb/s\<newline>''],
                       returncode = 0, written = Some (n div 2)\<rparr>,
            CannotStart, [''a.mp4''],
            (\<lambda>p. None)(''./a.mp4'' := Some 100, ''compressed/compressed_a.mp4'' := Some 50))]"
  have run: "batch_runs ?runs None
      = Some (Some [header,
                    [Text ''a.mp4'', Number (mb 100), Number (mb 50), Number 50, Flag 0],
                    [Text ''a.mp4'', Number (mb 100), Number (mb 50), Number 50, Flag 0]])"
    by code_simp
  let ?L = "Some [header,
                    [Text ''a.mp4'', Number (mb 100), Number (mb 50), Number 50, Flag 0],
                    [Text ''a.mp4'', Number (mb 100), Number (mb 50), Number 50, Flag 0]]"
  note imp = log_header_once [of undefined ?runs None ?L, THEN conjunct2, THEN conjunct2]
  have "batch_runs ?runs None = Some ?L \<and> ?runs \<noteq> []"
    by (rule conjI [OF run]) simp
  from imp [rule_format, OF this] have "count_list (rows_of ?L) header = 1"
    by auto
  moreover have "length (rows_of ?L) = 3" by (simp add: rows_of_def)
  ultimately show ?thesis using run by blast
qed

section \<open>Files already in the skipped area, and running the batch again\<close>


lemma cleanup_quarantine:
  assumes "files i = Some n" and "i \<noteq> out"
  shows "cleanup files i out m orig
     = (Inr (case orig of None \<Rightarrow> 0 | Some s \<Rightarrow> s, 0, True),
        files(out := None, i := None, join ''skipped'' m := Some n))"
proof (cases "files out")
  case None
  then have "files(out := None) = files" by (simp add: fun_upd_idem)
  with None assms show ?thesis
    by (simp add: cleanup_def path_exists_def os_rename_def)
next
  case (Some c)
  with assms show ?thesis
    by (simp add: cleanup_def path_exists_def os_remove_def os_rename_def)
qed

lemma compress_video_unfold:
  assumes "out = join folder (''compressed_'' @ basename i)"
  shows "compress_video ffmpeg files i folder gpu_type crf
     = (case try_block ffmpeg files i out (basename i) gpu_type crf of
          None \<Rightarrow> None
        | Some (Return r files') \<Rightarrow> Some (Inr r, files')
        | Some (Raise e files' orig) \<Rightarrow> Some (cleanup files' i out (basename i) orig))"
  unfolding compress_video_def Let_def assms by (rule refl)

lemma compress_video_disk:
  assumes src: "d i = Some n" and marker: "d (join ''skipped'' (basename i)) = None"
    and out: "out = join folder (''compressed_'' @ basename i)"
  shows "map_option snd (compress_video ffmpeg d i folder gpu_type crf)
     = (case fate ffmpeg gpu_type crf i out n (d out) of
          None \<Rightarrow> None
        | Some None \<Rightarrow> Some (d(out := None, i := None, join ''skipped'' (basename i) := Some n))
        | Some (Some c) \<Rightarrow> Some (d(out := Some c)))"
proof -
  note dist = output_path_distinct [OF out]
  let ?m = "join ''skipped'' (basename i)"
  have q: "files i = Some n \<Longrightarrow> files out = v \<Longrightarrow> (\<And>x. x \<noteq> out \<Longrightarrow> files x = d x) \<Longrightarrow>
      snd (cleanup files i out (basename i) orig) = d(out := None, i := None, ?m := Some n)"
    for files v orig
    using dist by (auto simp: cleanup_quarantine fun_eq_iff)
  show ?thesis
  proof (cases "GPU_CONFIG gpu_type")
    case None
    with src marker show ?thesis
      using q [of d "d out"]
      by (simp add: compress_video_unfold [OF out] try_block_def fate_def path_exists_def Let_def)
  next
    case (Some cfg)
    let ?p = "ffmpeg (command cfg gpu_type i out crf) n"
    let ?d1 = "launch ?p d out"
    have d1: "?d1 i = Some n" "\<And>x. x \<noteq> out \<Longrightarrow> ?d1 x = d x"
      "?d1 out = (case written ?p of None \<Rightarrow> d out | Some c \<Rightarrow> Some c)"
      using src dist by (auto simp: launch_def split: option.splits)
    show ?thesis
    proof (cases "supervise (stderr ?p)")
      case None
      with Some src marker show ?thesis
        by (simp add: compress_video_unfold [OF out] try_block_def fate_def path_exists_def Let_def)
    next
      case sup: (Some r)
      show ?thesis
      proof (cases r)
        case (Inl e)
        with sup Some src marker show ?thesis
          using q [of ?d1 "?d1 out"] d1
          by (simp add: compress_video_unfold [OF out] try_block_def fate_def path_exists_def Let_def)
      next
        case (Inr progress)
        have "snd (case check_result ?p ?d1 i out (basename i) (mb n) of
                     Return r files' \<Rightarrow> (Inr r, files')
                   | Raise e files' orig \<Rightarrow> cleanup files' i out (basename i) orig)
              = (case (if returncode ?p \<noteq> 0 then None
                       else (case ?d1 out of None \<Rightarrow> None
                             | Some c \<Rightarrow> if mb c \<ge> mb n then None else Some c)) of
                   None \<Rightarrow> d(out := None, i := None, ?m := Some n)
                 | Some c \<Rightarrow> d(out := Some c))"
          using q [of ?d1 "?d1 out"] d1 dist
          by (auto simp: check_result_def getsize_def os_remove_def os_rename_def Let_def
              fun_eq_iff cleanup_quarantine split: option.splits)
        note chk = this
        have lhs: "map_option snd (compress_video ffmpeg d i folder gpu_type crf)
              = Some (snd (case check_result ?p ?d1 i out (basename i) (mb n) of
                     Return r files' \<Rightarrow> (Inr r, files')
                   | Raise e files' orig \<Rightarrow> cleanup files' i out (basename i) orig))"
          using Inr sup Some src marker
          by (cases "check_result ?p ?d1 i out (basename i) (mb n)")
             (simp_all add: compress_video_unfold [OF out] try_block_def path_exists_def Let_def)
        have rhs: "fate ffmpeg gpu_type crf i out n (d out)
              = Some (if returncode ?p \<noteq> 0 then None
                       else (case ?d1 out of None \<Rightarrow> None
                             | Some c \<Rightarrow> if mb c \<ge> mb n then None else Some c))"
          using Inr sup Some
          by (simp add: fate_def Let_def d1(3) split: option.splits)
        show ?thesis unfolding lhs rhs chk by (simp split: option.splits)
      qed
    qed
  qed
qed



text \<open>
  When both loops end and the exit status is not zero, the destination is removed and
  the source is moved to the skipped area.
\<close>

lemma compress_video_nonzero_exit:
  assumes "d i = Some n" and "d (join ''skipped'' (basename i)) = None"
    and "GPU_CONFIG gpu_type = Some cfg"
    and out: "out = join folder (''compressed_'' @ basename i)"
    and "supervise (stderr (ffmpeg (command cfg gpu_type i out crf) n)) = Some r"
    and "returncode (ffmpeg (command cfg gpu_type i out crf) n) \<noteq> 0"
  shows "\<exists>res. compress_video ffmpeg d i folder gpu_type crf
           = Some (res, d(out := None, i := None, join ''skipped'' (basename i) := Some n))"
proof -
  have "fate ffmpeg gpu_type crf i out n (d out) = Some None"
    using assms by (cases r) (simp_all add: fate_def Let_def)
  with compress_video_disk [OF assms(1,2) out, of ffmpeg gpu_type crf]
  show ?thesis by (cases "compress_video ffmpeg d i folder gpu_type crf") auto
qed
















end
